theory Spec2Isabelle
  imports Complex_Main "HOL-Library.Word" "HOL-Library.Sublist" "HOL-Library.Multiset"
begin

section \<open>Strings, numbers and the platform\<close>

text \<open>
  A JavaScript string is a sequence of UTF-16 code units. ASCII literals of the source are
  written through \<open>js\<close>; the rupee sign of the fee strings is the single code unit
  \<open>0x20B9\<close>.
\<close>

type_synonym code_unit = "16 word"
type_synonym jsstring = "code_unit list"

definition js :: "string \<Rightarrow> jsstring" where
  "js s = map of_char s"

text \<open>
  A Number as it occurs in the page: NaN, a double whose value is an integer, or an
  infinity. Zero and minus zero are one value here: the page only tests a number for
  truthiness and for its sign.
\<close>

datatype number = NaN | Fin int | PosInf | NegInf

text \<open>A \<open>URLSearchParams\<close> object is its list of name-value entries, in order.\<close>

type_synonym URLSearchParams = "(jsstring \<times> jsstring) list"

text \<open>
  The page calls functions of the JavaScript platform whose code and tables are not part
  of the repository. Where their result is fixed by a few lines of the language standard
  it is written out below; the rest is taken as given, as the fields of a record:
  \<^item> \<open>unicode_lower\<close>: \<open>String.prototype.toLowerCase\<close> on a string that has a code unit
    of \<open>0x100\<close> or more (the case tables of Unicode beyond Latin-1, with their
    context-dependent rules);
  \<^item> \<open>parseInt_long\<close>: the Number that \<open>parseInt\<close> returns for a run of more than 15
    decimal digits (a double, rounded, or Infinity; beyond 20 digits the standard leaves
    the approximation to the implementation);
  \<^item> \<open>round_long\<close>: the double nearest to an integer of magnitude above \<open>2^53\<close>;
  \<^item> \<open>params_toString\<close>: \<open>URLSearchParams.prototype.toString\<close>, the percent-encoded
    query string of an entry list;
  \<^item> \<open>read_query\<close>: the entries of \<open>new URLSearchParams(searchParams.toString())\<close>
    once \<open>router.replace\<close> has been given a URL string.
\<close>

record platform =
  unicode_lower :: "jsstring \<Rightarrow> jsstring"
  parseInt_long :: "jsstring \<Rightarrow> number"
  round_long :: "int \<Rightarrow> number"
  params_toString :: "URLSearchParams \<Rightarrow> jsstring"
  read_query :: "jsstring \<Rightarrow> URLSearchParams"

text \<open>
  \<open>String.prototype.toLowerCase\<close>. On a string of Latin-1 code units (below
  \<open>0x100\<close>) it works unit by unit: the capitals A to Z and those of the Latin-1
  supplement (\<open>0xC0\<close> to \<open>0xDE\<close> without the multiplication sign \<open>0xD7\<close>) move up
  by \<open>0x20\<close>, every other unit stays. Any other string is the platform's.
\<close>

definition is_upper :: "code_unit \<Rightarrow> bool" where
  "is_upper c = ((0x41 \<le> c \<and> c \<le> 0x5A) \<or> (0xC0 \<le> c \<and> c \<le> 0xD6) \<or> (0xD8 \<le> c \<and> c \<le> 0xDE))"

definition lower_unit :: "code_unit \<Rightarrow> code_unit" where
  "lower_unit c = (if is_upper c then c + 0x20 else c)"

definition latin1 :: "jsstring \<Rightarrow> bool" where
  "latin1 s = list_all (\<lambda>c. c < 0x100) s"

definition toLowerCase :: "platform \<Rightarrow> jsstring \<Rightarrow> jsstring" where
  "toLowerCase pf s = (if latin1 s then map lower_unit s else unicode_lower pf s)"

text \<open>\<open>String.prototype.includes\<close>: the argument occurs as a contiguous run.\<close>

fun startsWith :: "jsstring \<Rightarrow> jsstring \<Rightarrow> bool" where
  "startsWith s [] = True"
| "startsWith [] (t # ts) = False"
| "startsWith (c # cs) (t # ts) = (c = t \<and> startsWith cs ts)"

fun str_includes :: "jsstring \<Rightarrow> jsstring \<Rightarrow> bool" where
  "str_includes [] t = (t = [])"
| "str_includes (c # cs) t = (startsWith (c # cs) t \<or> str_includes cs t)"

definition is_digit :: "code_unit \<Rightarrow> bool" where
  "is_digit c = (0x30 \<le> c \<and> c \<le> 0x39)"

definition digit_value :: "code_unit \<Rightarrow> int" where
  "digit_value c = uint c - 48"

fun digits_value :: "int \<Rightarrow> jsstring \<Rightarrow> int" where
  "digits_value acc [] = acc"
| "digits_value acc (c # cs) = digits_value (10 * acc + digit_value c) cs"

text \<open>White space and line terminators that \<open>parseInt\<close> skips at the start of its input.\<close>

definition is_white_space :: "code_unit \<Rightarrow> bool" where
  "is_white_space c =
     (c \<in> set [0x09, 0x0A, 0x0B, 0x0C, 0x0D, 0x20, 0xA0, 0x1680, 0x2028, 0x2029,
               0x202F, 0x205F, 0x3000, 0xFEFF]
      \<or> (0x2000 \<le> c \<and> c \<le> 0x200A))"

definition num_neg :: "number \<Rightarrow> number" where
  "num_neg v = (case v of NaN \<Rightarrow> NaN | Fin n \<Rightarrow> Fin (- n) | PosInf \<Rightarrow> NegInf | NegInf \<Rightarrow> PosInf)"

text \<open>
  \<open>parseInt(s, 10)\<close>: skip leading white space, read an optional sign, then the longest
  run of decimal digits; NaN when that run is empty. A run of at most 15 digits is below
  \<open>2^53\<close>, so its value is a double as it stands; a longer run is the platform's.
\<close>

definition parseInt :: "platform \<Rightarrow> jsstring \<Rightarrow> number" where
  "parseInt pf s =
     (let t = dropWhile is_white_space s;
          negative = (case t of c # r \<Rightarrow> c = 0x2D | [] \<Rightarrow> False);
          u = (case t of c # r \<Rightarrow> if c = 0x2D \<or> c = 0x2B then r else t | [] \<Rightarrow> []);
          ds = takeWhile is_digit u;
          v = (if length ds \<le> 15 then Fin (digits_value 0 ds) else parseInt_long pf ds)
      in if ds = [] then NaN else if negative then num_neg v else v)"

text \<open>The value of \<open>v || 0\<close> for a number \<open>v\<close>: NaN and zero are falsy.\<close>

definition or_zero :: "number \<Rightarrow> number" where
  "or_zero v = (if v = NaN \<or> v = Fin 0 then Fin 0 else v)"

text \<open>
  The Number for an integer: the integer itself up to \<open>2^53\<close> in magnitude, the
  platform's rounding beyond.
\<close>

definition to_number :: "platform \<Rightarrow> int \<Rightarrow> number" where
  "to_number pf n = (if \<bar>n\<bar> \<le> 9007199254740992 then Fin n else round_long pf n)"

text \<open>Subtraction of Numbers: NaN is contagious, and so is an infinity minus itself.\<close>

fun num_sub :: "platform \<Rightarrow> number \<Rightarrow> number \<Rightarrow> number" where
  "num_sub pf NaN b = NaN"
| "num_sub pf a NaN = NaN"
| "num_sub pf (Fin x) (Fin y) = to_number pf (x - y)"
| "num_sub pf (Fin x) PosInf = NegInf"
| "num_sub pf (Fin x) NegInf = PosInf"
| "num_sub pf PosInf PosInf = NaN"
| "num_sub pf PosInf b = PosInf"
| "num_sub pf NegInf NegInf = NaN"
| "num_sub pf NegInf b = NegInf"

text \<open>
  \<open>Array.prototype.sort\<close> with a comparator. The engine's algorithm is not part of the
  repository; the language requires a stable sort, and a comparator result that is NaN
  counts as zero. For a consistent comparator the outcome is the one of a stable
  insertion sort: an element moves behind a later one only when the comparator is
  positive.
\<close>

definition positive :: "number \<Rightarrow> bool" where
  "positive v = (case v of NaN \<Rightarrow> False | Fin n \<Rightarrow> 0 < n | PosInf \<Rightarrow> True | NegInf \<Rightarrow> False)"

fun insert_sorted :: "('a \<Rightarrow> 'a \<Rightarrow> number) \<Rightarrow> 'a \<Rightarrow> 'a list \<Rightarrow> 'a list" where
  "insert_sorted cmp x [] = [x]"
| "insert_sorted cmp x (y # ys) =
     (if positive (cmp x y) then y # insert_sorted cmp x ys else x # y # ys)"

definition array_sort :: "('a \<Rightarrow> 'a \<Rightarrow> number) \<Rightarrow> 'a list \<Rightarrow> 'a list" where
  "array_sort cmp xs = foldr (insert_sorted cmp) xs []"

section \<open>The doctor record and the two parsing helpers\<close>

text \<open>
  The \<open>Doctor\<close> interface that the page declares for itself (the one of
  \<open>types/doctor.ts\<close> is not used by the page). Field names that occur in more than
  one interface, or that are constants of the logic, carry a prefix here: \<open>doctor_id\<close>
  is the doctor's \<open>id\<close>, \<open>spec_name\<close> the \<open>name\<close> of a specialty,
  \<open>clinic_name\<close> and \<open>clinic_address\<close> the \<open>name\<close> and \<open>address\<close>
  of the clinic.
\<close>

record address =
  locality :: jsstring
  city :: jsstring
  address_line1 :: jsstring
  location :: jsstring
  logo_url :: "jsstring option"

record clinic =
  clinic_name :: jsstring
  clinic_address :: address

record speciality =
  spec_name :: jsstring

record Doctor =
  doctor_id :: jsstring
  name :: jsstring
  name_initials :: jsstring
  photo :: jsstring
  doctor_introduction :: jsstring
  specialities :: "speciality list"
  fees :: jsstring
  experience :: jsstring
  languages :: "jsstring list"
  clinic :: clinic
  video_consult :: bool
  in_clinic :: bool

text \<open>
  \<open>parseFee\<close>: the argument may be missing at run time (\<open>None\<close>), which the optional
  chaining turns into \<open>parseInt(undefined)\<close>, that is NaN. The regular expression
  \<open>/[^0-9.]/g\<close> removes every code unit that is neither a digit nor a full stop.
\<close>

definition strip_fee :: "jsstring \<Rightarrow> jsstring" where
  "strip_fee s = filter (\<lambda>c. is_digit c \<or> c = 0x2E) s"

definition parseFee :: "platform \<Rightarrow> jsstring option \<Rightarrow> number" where
  "parseFee pf feeString =
     or_zero (case feeString of None \<Rightarrow> NaN | Some s \<Rightarrow> parseInt pf (strip_fee s))"

text \<open>
  \<open>parseExperience\<close>: the regular expression matches a run of one or more digits at
  the start of the string, and its group is the longest such run.
\<close>

definition parseExperience :: "platform \<Rightarrow> jsstring option \<Rightarrow> number" where
  "parseExperience pf expString =
     (case expString of
        None \<Rightarrow> Fin 0
      | Some s \<Rightarrow>
          (let match = takeWhile is_digit s
           in if match \<noteq> [] then parseInt pf match else Fin 0))"

section \<open>Filter state and the derivation of the visible list\<close>

record filter_state =
  searchTerm :: jsstring
  selectedConsultation :: "jsstring option"
  selectedSpecialties :: "jsstring list"
  sortBy :: "jsstring option"

text \<open>Truthiness of a \<open>string | null\<close>: null and the empty string are falsy.\<close>

definition truthy :: "jsstring option \<Rightarrow> bool" where
  "truthy v = (case v of None \<Rightarrow> False | Some s \<Rightarrow> s \<noteq> [])"

definition search_stage :: "platform \<Rightarrow> jsstring \<Rightarrow> Doctor list \<Rightarrow> Doctor list" where
  "search_stage pf term result =
     (if term \<noteq> [] then
        (let lowerSearchTerm = toLowerCase pf term
         in filter (\<lambda>doctor. str_includes (toLowerCase pf (name doctor)) lowerSearchTerm) result)
      else result)"

definition consultation_stage :: "jsstring option \<Rightarrow> Doctor list \<Rightarrow> Doctor list" where
  "consultation_stage sel result =
     (if truthy sel then
        filter (\<lambda>doctor.
          if sel = Some (js ''video'') then video_consult doctor
          else if sel = Some (js ''clinic'') then in_clinic doctor
          else False) result
      else result)"

definition specialty_stage :: "jsstring list \<Rightarrow> Doctor list \<Rightarrow> Doctor list" where
  "specialty_stage sels result =
     (if length sels > 0 then
        filter (\<lambda>doctor. list_ex (\<lambda>specObj. spec_name specObj \<in> set sels) (specialities doctor))
          result
      else result)"

definition sort_cmp :: "platform \<Rightarrow> jsstring \<Rightarrow> Doctor \<Rightarrow> Doctor \<Rightarrow> number" where
  "sort_cmp pf key a b =
     (if key = js ''fees'' then
        num_sub pf (parseFee pf (Some (fees a))) (parseFee pf (Some (fees b)))
      else if key = js ''experience'' then
        num_sub pf (parseExperience pf (Some (experience b))) (parseExperience pf (Some (experience a)))
      else Fin 0)"

definition sort_stage :: "platform \<Rightarrow> jsstring option \<Rightarrow> Doctor list \<Rightarrow> Doctor list" where
  "sort_stage pf key result =
     (case key of
        None \<Rightarrow> result
      | Some k \<Rightarrow> if k \<noteq> [] then array_sort (sort_cmp pf k) result else result)"

text \<open>
  The effect that derives the visible list: the three filters in their fixed order, then
  the sort, on a copy of the fetched list.
\<close>

definition filter_stages :: "platform \<Rightarrow> Doctor list \<Rightarrow> filter_state \<Rightarrow> Doctor list" where
  "filter_stages pf allDoctors st =
     specialty_stage (selectedSpecialties st)
       (consultation_stage (selectedConsultation st)
         (search_stage pf (searchTerm st) allDoctors))"

definition filteredDoctors :: "platform \<Rightarrow> Doctor list \<Rightarrow> filter_state \<Rightarrow> Doctor list" where
  "filteredDoctors pf allDoctors st = sort_stage pf (sortBy st) (filter_stages pf allDoctors st)"


section \<open>Filter state and the URL\<close>













section \<open>Fetching the data\<close>

text \<open>
  What \<open>response.json()\<close> can produce. The annotation \<open>Doctor[]\<close> is not checked
  at run time, so the state variable \<open>allDoctors\<close> holds whatever value was parsed.
\<close>

datatype json =
  JNull
| JBool bool
| JNumber real
| JString jsstring
| JArray "json list"
| JObject "(jsstring \<times> json) list"

text \<open>Truthiness, as \<open>data || []\<close> tests it.\<close>

fun json_truthy :: "json \<Rightarrow> bool" where
  "json_truthy JNull = False"
| "json_truthy (JBool b) = b"
| "json_truthy (JNumber r) = (r \<noteq> 0)"
| "json_truthy (JString s) = (s \<noteq> [])"
| "json_truthy (JArray xs) = True"
| "json_truthy (JObject kvs) = True"

text \<open>
  A thrown value is an \<open>Error\<close> with its message or something else; an awaited promise
  resolves or rejects with a thrown value.
\<close>

datatype thrown = Error jsstring | NotAnError

datatype 'a settled = Resolved 'a | Rejected thrown

record response =
  ok :: bool
  status :: nat
  json_result :: "json settled"

record page_state =
  allDoctors :: json
  isLoading :: bool
  error :: "jsstring option"

definition initial_state :: page_state where
  "initial_state = \<lparr>allDoctors = JArray [], isLoading = True, error = None\<rparr>"

text \<open>The decimal digits of a status code, for the template string.\<close>

fun decimal :: "nat \<Rightarrow> jsstring" where
  "decimal n = (if n < 10 then [of_nat (48 + n)] else decimal (n div 10) @ [of_nat (48 + n mod 10)])"

declare decimal.simps [simp del]

definition catch_block :: "thrown \<Rightarrow> page_state \<Rightarrow> page_state" where
  "catch_block e st =
     st\<lparr>error := Some (js ''Failed to load doctor data. '' @
                        (case e of Error msg \<Rightarrow> msg | NotAnError \<Rightarrow> js ''Please try again later.''))\<rparr>"

text \<open>
  \<open>fetchData\<close>, given how the request settles: the state after the \<open>finally\<close> block.
\<close>

definition fetchData :: "response settled \<Rightarrow> page_state \<Rightarrow> page_state" where
  "fetchData outcome st0 =
     (let st1 = st0\<lparr>isLoading := True, error := None\<rparr>;
          st2 = (case outcome of
                   Rejected e \<Rightarrow> catch_block e st1
                 | Resolved r \<Rightarrow>
                     if \<not> ok r then
                       catch_block (Error (js ''HTTP error! status: '' @ decimal (status r))) st1
                     else (case json_result r of
                             Rejected e \<Rightarrow> catch_block e st1
                           | Resolved data \<Rightarrow>
                               st1\<lparr>allDoctors := (if json_truthy data then data else JArray [])\<rparr>))
      in st2\<lparr>isLoading := False\<rparr>)"

section \<open>Notions of the specification and sample data\<close>



text \<open>
  The specification's reading of a fee: what is left of the string once every character
  other than a digit or a decimal point is removed, read as a decimal numeral (digits,
  then optionally a point and more digits); zero when it cannot be read so.
\<close>

definition decimal_numeral :: "jsstring \<Rightarrow> rat option" where
  "decimal_numeral s =
     (let ip = takeWhile is_digit s; rest = dropWhile is_digit s
      in case rest of
           [] \<Rightarrow> if ip = [] then None else Some (of_int (digits_value 0 ip))
         | c # fr \<Rightarrow>
             if c = 0x2E \<and> list_all is_digit fr \<and> (ip \<noteq> [] \<or> fr \<noteq> [])
             then Some (of_int (digits_value 0 ip) + of_int (digits_value 0 fr) / 10 ^ length fr)
             else None)"

definition fee_number :: "jsstring \<Rightarrow> rat" where
  "fee_number s = (case decimal_numeral (strip_fee s) of None \<Rightarrow> 0 | Some v \<Rightarrow> v)"

text \<open>
  The integer written by the digits a string starts with; zero when it starts with none.
  A string is short when that run has at most 15 digits.
\<close>

definition leading_integer :: "jsstring \<Rightarrow> int" where
  "leading_integer s = digits_value 0 (takeWhile is_digit s)"

definition short_run :: "jsstring \<Rightarrow> bool" where
  "short_run s = (length (takeWhile is_digit s) \<le> 15)"








text \<open>
  The failures of the request: the network call rejects, the status is not a success, or
  the body cannot be parsed.
\<close>

definition failed :: "response settled \<Rightarrow> bool" where
  "failed outcome =
     (case outcome of
        Rejected e \<Rightarrow> True
      | Resolved r \<Rightarrow> \<not> ok r \<or> (case json_result r of Rejected e \<Rightarrow> True | Resolved data \<Rightarrow> False))"

text \<open>A parsed body that is array-shaped.\<close>

fun is_array :: "json \<Rightarrow> bool" where
  "is_array (JArray xs) = True"
| "is_array v = False"

text \<open>
  A doctor for the examples: name, specialty names, fee, experience and the two flags;
  every other field is empty.
\<close>

definition doc :: "string \<Rightarrow> string list \<Rightarrow> jsstring \<Rightarrow> string \<Rightarrow> bool \<Rightarrow> bool \<Rightarrow> Doctor" where
  "doc nm specs fee expr video inclinic =
     \<lparr>doctor_id = [], name = js nm, name_initials = [], photo = [], doctor_introduction = [],
      specialities = map (\<lambda>s. \<lparr>spec_name = js s\<rparr>) specs, fees = fee, experience = js expr,
      languages = [],
      clinic = \<lparr>clinic_name = [],
                clinic_address = \<lparr>locality = [], city = [], address_line1 = [], location = [],
                                  logo_url = None\<rparr>\<rparr>,
      video_consult = video, in_clinic = inclinic\<rparr>"

section \<open>Basic facts\<close>

subsection \<open>Substring search\<close>









subsection \<open>The sort and the filters\<close>

lemma mset_insert_sorted: "mset (insert_sorted cmp x ys) = add_mset x (mset ys)"
  by (induction ys) simp_all

lemma mset_array_sort: "mset (array_sort cmp xs) = mset xs"
  by (induction xs) (simp_all add: array_sort_def mset_insert_sorted)

lemma insert_sorted_never_positive:
  "(\<And>y. \<not> positive (cmp x y)) \<Longrightarrow> insert_sorted cmp x ys = x # ys"
  by (cases ys) simp_all

lemma array_sort_never_positive:
  "(\<And>x y. \<not> positive (cmp x y)) \<Longrightarrow> array_sort cmp xs = xs"
  by (induction xs) (simp_all add: array_sort_def insert_sorted_never_positive)

lemma search_stage_filter: "\<exists>P. search_stage pf term xs = filter P xs"
proof (cases "term = []")
  case True
  then have "search_stage pf term xs = filter (\<lambda>_. True) xs" by (simp add: search_stage_def)
  then show ?thesis by blast
next
  case False
  then show ?thesis by (auto simp: search_stage_def Let_def)
qed

lemma consultation_stage_filter: "\<exists>P. consultation_stage sel xs = filter P xs"
proof (cases "truthy sel")
  case False
  then have "consultation_stage sel xs = filter (\<lambda>_. True) xs" by (simp add: consultation_stage_def)
  then show ?thesis by blast
next
  case True
  then show ?thesis unfolding consultation_stage_def by (simp only: if_True) blast
qed

lemma specialty_stage_filter: "\<exists>P. specialty_stage sels xs = filter P xs"
proof (cases "sels = []")
  case True
  then have "specialty_stage sels xs = filter (\<lambda>_. True) xs" by (simp add: specialty_stage_def)
  then show ?thesis by blast
next
  case False
  then show ?thesis by (auto simp: specialty_stage_def)
qed

lemma filter_stages_filter: "\<exists>P. filter_stages pf raw st = filter P raw"
proof -
  obtain P where P: "search_stage pf (searchTerm st) raw = filter P raw"
    using search_stage_filter by blast
  obtain Q where Q: "consultation_stage (selectedConsultation st) (filter P raw) = filter Q (filter P raw)"
    using consultation_stage_filter by blast
  obtain R where R: "specialty_stage (selectedSpecialties st) (filter Q (filter P raw))
                     = filter R (filter Q (filter P raw))"
    using specialty_stage_filter by blast
  have "filter_stages pf raw st = filter R (filter Q (filter P raw))"
    by (simp only: filter_stages_def P Q R)
  then show ?thesis unfolding filter_filter by blast
qed

lemma mset_sort_stage: "mset (sort_stage pf key xs) = mset xs"
  by (simp add: sort_stage_def mset_array_sort split: option.split)

lemma sort_stage_falsy: "\<not> truthy key \<Longrightarrow> sort_stage pf key xs = xs"
  by (simp add: sort_stage_def truthy_def split: option.splits)

subsection \<open>Reading numbers out of strings\<close>

lemma digit_not_space: "is_digit c \<Longrightarrow> \<not> is_white_space c"
  unfolding is_digit_def is_white_space_def by (auto simp: word_le_nat_alt)

lemma digit_not_sign: "is_digit c \<Longrightarrow> c \<noteq> 0x2D \<and> c \<noteq> 0x2B"
  unfolding is_digit_def by (auto simp: word_le_nat_alt)

lemma dot_not_space: "\<not> is_white_space 0x2E"
  unfolding is_white_space_def by simp

lemma digit_value_range: "is_digit c \<Longrightarrow> 0 \<le> digit_value c \<and> digit_value c \<le> 9"
  unfolding is_digit_def digit_value_def by (simp add: word_le_def)

lemma digits_value_acc: "digits_value acc ds = acc * 10 ^ length ds + digits_value 0 ds"
proof (induction ds arbitrary: acc)
  case Nil
  then show ?case by simp
next
  case (Cons c cs)
  have "digits_value acc (c # cs) = digits_value (10 * acc + digit_value c) cs" by simp
  also have "\<dots> = (10 * acc + digit_value c) * 10 ^ length cs + digits_value 0 cs"
    by (rule Cons.IH)
  also have "digits_value 0 (c # cs) = digit_value c * 10 ^ length cs + digits_value 0 cs"
    using Cons.IH [of "digit_value c"] by simp
  ultimately show ?case by (simp add: algebra_simps)
qed

lemma digits_value_bound:
  "list_all is_digit ds \<Longrightarrow> 0 \<le> digits_value 0 ds \<and> digits_value 0 ds < 10 ^ length ds"
proof (induction ds)
  case Nil
  then show ?case by simp
next
  case (Cons c cs)
  then have c: "0 \<le> digit_value c" "digit_value c \<le> 9"
    and r: "0 \<le> digits_value 0 cs" "digits_value 0 cs < 10 ^ length cs"
    using digit_value_range by auto
  have e: "digits_value 0 (c # cs) = digit_value c * 10 ^ length cs + digits_value 0 cs"
    using digits_value_acc [of "digit_value c" cs] by simp
  define p :: int where "p = 10 ^ length cs"
  have p: "0 \<le> p" by (simp add: p_def)
  have u: "digit_value c * p \<le> 9 * p"
    using c(2) p by (rule mult_right_mono)
  have l: "0 \<le> digit_value c * p"
    using c(1) p by (rule mult_nonneg_nonneg)
  have "0 \<le> digit_value c * p + digits_value 0 cs"
    and "digit_value c * p + digits_value 0 cs < 10 * p"
    using u l r unfolding p_def [symmetric] by linarith+
  then show ?case unfolding e by (simp add: p_def)
qed

text \<open>A short run of digits stays below \<open>10^15\<close>, hence below \<open>2^53\<close>.\<close>

lemma leading_integer_bound:
  assumes "short_run s"
  shows "0 \<le> leading_integer s \<and> leading_integer s < 1000000000000000"
proof -
  let ?ds = "takeWhile is_digit s"
  have "list_all is_digit ?ds"
    by (simp add: list_all_iff) (auto dest: set_takeWhileD)
  then have b: "0 \<le> digits_value 0 ?ds" "digits_value 0 ?ds < 10 ^ length ?ds"
    using digits_value_bound by blast+
  have "(10::int) ^ length ?ds \<le> 10 ^ 15"
    using assms by (intro power_increasing) (simp_all add: short_run_def)
  with b show ?thesis by (simp add: leading_integer_def)
qed

lemma num_sub_short:
  assumes "0 \<le> x \<and> x < 1000000000000000" and "0 \<le> y \<and> y < 1000000000000000"
  shows "num_sub pf (Fin x) (Fin y) = Fin (x - y)"
proof -
  have "\<bar>x - y\<bar> \<le> 9007199254740992"
    using assms by linarith
  then show ?thesis by (simp add: to_number_def)
qed

lemma parseInt_plain:
  assumes "s = [] \<or> is_digit (hd s) \<or> hd s = 0x2E" and "short_run s"
  shows "parseInt pf s = (if takeWhile is_digit s = [] then NaN else Fin (leading_integer s))"
proof (cases s)
  case Nil
  then show ?thesis by (simp add: parseInt_def)
next
  case (Cons c cs)
  with assms have c: "is_digit c \<or> c = 0x2E" by simp
  then have "\<not> is_white_space c" "c \<noteq> 0x2D" "c \<noteq> 0x2B"
    using digit_not_space digit_not_sign dot_not_space by auto
  then have "parseInt pf s =
      (if takeWhile is_digit s = [] then NaN
       else if length (takeWhile is_digit s) \<le> 15 then Fin (digits_value 0 (takeWhile is_digit s))
       else parseInt_long pf (takeWhile is_digit s))"
    using Cons by (simp add: parseInt_def Let_def)
  then show ?thesis
    using assms(2) by (simp add: leading_integer_def short_run_def)
qed

lemma strip_fee_head:
  "strip_fee s = [] \<or> is_digit (hd (strip_fee s)) \<or> hd (strip_fee s) = 0x2E"
proof (cases "strip_fee s")
  case Nil
  then show ?thesis by simp
next
  case (Cons c cs)
  then have "c \<in> set (strip_fee s)" by simp
  then have "is_digit c \<or> c = 0x2E" by (simp add: strip_fee_def)
  with Cons show ?thesis by simp
qed

lemma parseFee_value:
  "short_run (strip_fee s) \<Longrightarrow> parseFee pf (Some s) = Fin (leading_integer (strip_fee s))"
  using parseInt_plain [OF strip_fee_head, of s pf]
  by (simp add: parseFee_def or_zero_def leading_integer_def)

lemma parseFee_missing: "parseFee pf None = Fin 0"
  by (simp add: parseFee_def or_zero_def)

lemma parseExperience_value:
  assumes "short_run s"
  shows "parseExperience pf (Some s) = Fin (leading_integer s)"
proof -
  define ds where "ds = takeWhile is_digit s"
  have idem: "takeWhile is_digit ds = ds"
    by (simp add: ds_def)
  have short: "short_run ds"
    using assms by (simp add: short_run_def ds_def)
  show ?thesis
  proof (cases ds)
    case Nil
    then show ?thesis
      by (simp add: parseExperience_def leading_integer_def ds_def [symmetric])
  next
    case (Cons c cs)
    then have "c \<in> set (takeWhile is_digit s)" by (simp add: ds_def [symmetric])
    then have "is_digit c" by (auto dest: set_takeWhileD)
    then have "ds = [] \<or> is_digit (hd ds) \<or> hd ds = 0x2E" using Cons by simp
    then have "parseInt pf ds = (if takeWhile is_digit ds = [] then NaN else Fin (leading_integer ds))"
      using short by (rule parseInt_plain)
    moreover have ne: "ds \<noteq> []" using Cons by simp
    ultimately have "parseInt pf ds = Fin (leading_integer ds)"
      by (simp add: idem)
    moreover have "leading_integer ds = leading_integer s"
      by (simp add: leading_integer_def ds_def)
    ultimately have "parseInt pf ds = Fin (leading_integer s)"
      by simp
    with ne show ?thesis
      by (simp add: parseExperience_def ds_def [symmetric])
  qed
qed

lemma key_names: "js ''fees'' \<noteq> []" "js ''experience'' \<noteq> []" "js ''experience'' \<noteq> js ''fees''"
  by (simp_all add: js_def)

lemma insert_sorted_experience:
  assumes "short_run (experience x)" and "\<forall>y \<in> set ys. short_run (experience y)"
  shows "insert_sorted (sort_cmp pf (js ''experience'')) x ys
         = insort_key (\<lambda>d. - leading_integer (experience d)) x ys"
  using assms(2)
proof (induction ys)
  case Nil
  then show ?case by simp
next
  case (Cons y ys)
  then have y: "short_run (experience y)" by simp
  have "sort_cmp pf (js ''experience'') x y
        = num_sub pf (Fin (leading_integer (experience y))) (Fin (leading_integer (experience x)))"
    using assms(1) y by (simp add: sort_cmp_def key_names parseExperience_value)
  also have "\<dots> = Fin (leading_integer (experience y) - leading_integer (experience x))"
    using assms(1) y by (intro num_sub_short leading_integer_bound)
  finally have "sort_cmp pf (js ''experience'') x y
        = Fin (leading_integer (experience y) - leading_integer (experience x))" .
  then have "positive (sort_cmp pf (js ''experience'') x y)
        = (\<not> - leading_integer (experience x) \<le> - leading_integer (experience y))"
    by (auto simp: positive_def)
  with Cons show ?case by simp
qed

lemma array_sort_experience:
  assumes "\<forall>d \<in> set xs. short_run (experience d)"
  shows "array_sort (sort_cmp pf (js ''experience'')) xs
         = sort_key (\<lambda>d. - leading_integer (experience d)) xs"
  using assms
proof (induction xs)
  case Nil
  then show ?case by (simp add: array_sort_def)
next
  case (Cons x xs)
  let ?key = "\<lambda>d. - leading_integer (experience d)"
  have ih: "array_sort (sort_cmp pf (js ''experience'')) xs = sort_key ?key xs"
    using Cons by simp
  have "\<forall>y \<in> set (sort_key ?key xs). short_run (experience y)"
    using Cons.prems by simp
  then have "insert_sorted (sort_cmp pf (js ''experience'')) x (sort_key ?key xs)
        = insort_key ?key x (sort_key ?key xs)"
    using Cons.prems by (intro insert_sorted_experience) simp_all
  then show ?case
    using ih by (simp add: array_sort_def sort_key_def)
qed

lemma sort_stage_experience:
  "\<forall>d \<in> set xs. short_run (experience d) \<Longrightarrow>
   sort_stage pf (Some (js ''experience'')) xs = sort_key (\<lambda>d. - leading_integer (experience d)) xs"
  by (simp add: sort_stage_def array_sort_experience key_names)

section \<open>Name search\<close>



section \<open>Consultation mode\<close>

text \<open>
  Claim C5. With a consultation mode selected, mode "video" keeps exactly the doctors
  whose \<open>video_consult\<close> flag is true, mode "clinic" exactly those whose \<open>in_clinic\<close>
  flag is true, and every other non-empty mode keeps no doctor.
\<close>

theorem consultation_stage_exact:
  "consultation_stage (Some (js ''video'')) ds = filter video_consult ds
   \<and> consultation_stage (Some (js ''clinic'')) ds = filter in_clinic ds
   \<and> (m \<noteq> [] \<and> m \<noteq> js ''video'' \<and> m \<noteq> js ''clinic''
        \<longrightarrow> consultation_stage (Some m) ds = [])"
proof (intro conjI impI)
  have v: "truthy (Some (js ''video''))" and c: "truthy (Some (js ''clinic''))"
    by (simp_all add: truthy_def js_def)
  have ne: "js ''clinic'' \<noteq> js ''video''"
    by (simp add: js_def)
  show "consultation_stage (Some (js ''video'')) ds = filter video_consult ds"
    using v by (simp add: consultation_stage_def)
  show "consultation_stage (Some (js ''clinic'')) ds = filter in_clinic ds"
    using c ne by (simp add: consultation_stage_def)
  assume "m \<noteq> [] \<and> m \<noteq> js ''video'' \<and> m \<noteq> js ''clinic''"
  then show "consultation_stage (Some m) ds = []"
    by (simp add: consultation_stage_def truthy_def)
qed

theorem consultation_stage_exact_witness:
  "consultation_stage (Some (js ''video''))
     [doc ''A'' [] [] [] True False, doc ''B'' [] [] [] False True, doc ''C'' [] [] [] True True]
   = [doc ''A'' [] [] [] True False, doc ''C'' [] [] [] True True]
   \<and> consultation_stage (Some (js ''clinic''))
     [doc ''A'' [] [] [] True False, doc ''B'' [] [] [] False True, doc ''C'' [] [] [] True True]
   = [doc ''B'' [] [] [] False True, doc ''C'' [] [] [] True True]
   \<and> consultation_stage (Some (js ''phone''))
     [doc ''A'' [] [] [] True False, doc ''B'' [] [] [] False True, doc ''C'' [] [] [] True True]
   = []"
proof -
  have h: "js ''phone'' \<noteq> [] \<and> js ''phone'' \<noteq> js ''video'' \<and> js ''phone'' \<noteq> js ''clinic''"
    by (simp add: js_def)
  show ?thesis
    using h consultation_stage_exact
      [of "[doc ''A'' [] [] [] True False, doc ''B'' [] [] [] False True, doc ''C'' [] [] [] True True]"
          "js ''phone''"]
    by (simp add: doc_def)
qed

section \<open>Specialties\<close>

text \<open>
  Claim C6. With at least one specialty selected, the specialty filter keeps a doctor
  exactly when one of the doctor's specialty names is among the selected ones; with two
  specialties selected the result is the union of what each of them selects alone.
\<close>

theorem specialty_stage_or:
  "(sels \<noteq> [] \<longrightarrow>
      specialty_stage sels ds
      = filter (\<lambda>d. \<exists>s \<in> set (specialities d). spec_name s \<in> set sels) ds)
   \<and> specialty_stage [a, b] ds
      = filter (\<lambda>d. a \<in> spec_name ` set (specialities d) \<or> b \<in> spec_name ` set (specialities d)) ds
   \<and> set (specialty_stage [a, b] ds) = set (specialty_stage [a] ds) \<union> set (specialty_stage [b] ds)"
proof (intro conjI impI)
  show "specialty_stage [a, b] ds
      = filter (\<lambda>d. a \<in> spec_name ` set (specialities d) \<or> b \<in> spec_name ` set (specialities d)) ds"
    by (auto simp: specialty_stage_def list_ex_iff intro!: filter_cong)
  show "set (specialty_stage [a, b] ds) = set (specialty_stage [a] ds) \<union> set (specialty_stage [b] ds)"
    by (auto simp: specialty_stage_def list_ex_iff)
  assume "sels \<noteq> []"
  then show "specialty_stage sels ds
      = filter (\<lambda>d. \<exists>s \<in> set (specialities d). spec_name s \<in> set sels) ds"
    by (simp add: specialty_stage_def list_ex_iff)
qed

theorem specialty_stage_or_witness:
  "specialty_stage [js ''Dentist'', js ''ENT'']
     [doc ''A'' [''Dentist''] [] [] True True, doc ''B'' [''ENT''] [] [] True True,
      doc ''C'' [''Homeopath''] [] [] True True, doc ''D'' [''ENT'', ''Dentist''] [] [] True True]
   = [doc ''A'' [''Dentist''] [] [] True True, doc ''B'' [''ENT''] [] [] True True,
      doc ''D'' [''ENT'', ''Dentist''] [] [] True True]"
proof -
  have h: "[js ''Dentist'', js ''ENT''] \<noteq> []" by simp
  show ?thesis
    using h specialty_stage_or
      [of "[js ''Dentist'', js ''ENT'']"
          "[doc ''A'' [''Dentist''] [] [] True True, doc ''B'' [''ENT''] [] [] True True,
            doc ''C'' [''Homeopath''] [] [] True True, doc ''D'' [''ENT'', ''Dentist''] [] [] True True]"]
    by (simp add: doc_def js_def)
qed

section \<open>Suggestions\<close>



section \<open>The derived list as a whole\<close>

text \<open>
  Claim C2. For every raw list and every filter state the derived list is a sub-multiset
  of the raw list (each element of the output occurs in the raw list, as often at most as
  it does there, so nothing is duplicated or invented); and when the sort key is unset
  (null or empty) the output is a subsequence of the raw list, that is, the relative order
  of the raw list is kept.
\<close>

theorem filteredDoctors_subset:
  "mset (filteredDoctors pf raw st) \<subseteq># mset raw
   \<and> (\<not> truthy (sortBy st) \<longrightarrow> subseq (filteredDoctors pf raw st) raw)"
proof (intro conjI impI)
  obtain P where P: "filter_stages pf raw st = filter P raw"
    using filter_stages_filter by blast
  have "mset (filteredDoctors pf raw st) = mset (filter P raw)"
    by (simp add: filteredDoctors_def mset_sort_stage P)
  then show "mset (filteredDoctors pf raw st) \<subseteq># mset raw"
    by simp
  assume "\<not> truthy (sortBy st)"
  then have "filteredDoctors pf raw st = filter P raw"
    by (simp add: filteredDoctors_def sort_stage_falsy P)
  then show "subseq (filteredDoctors pf raw st) raw"
    by simp
qed

theorem filteredDoctors_subset_witness:
  "\<forall>pf. filteredDoctors pf
     [doc ''Karan'' [''ENT''] [] [] True False, doc ''Bob'' [''ENT''] [] [] True True,
      doc ''Anita'' [''Dentist''] [] [] False True, doc ''Karan'' [''ENT''] [] [] True False]
     \<lparr>searchTerm = js ''AN'', selectedConsultation = Some (js ''video''),
      selectedSpecialties = [js ''ENT''], sortBy = None\<rparr>
   = [doc ''Karan'' [''ENT''] [] [] True False, doc ''Karan'' [''ENT''] [] [] True False]
   \<and> subseq
     (filteredDoctors pf
       [doc ''Karan'' [''ENT''] [] [] True False, doc ''Bob'' [''ENT''] [] [] True True,
        doc ''Anita'' [''Dentist''] [] [] False True, doc ''Karan'' [''ENT''] [] [] True False]
       \<lparr>searchTerm = js ''AN'', selectedConsultation = Some (js ''video''),
        selectedSpecialties = [js ''ENT''], sortBy = None\<rparr>)
     [doc ''Karan'' [''ENT''] [] [] True False, doc ''Bob'' [''ENT''] [] [] True True,
      doc ''Anita'' [''Dentist''] [] [] False True, doc ''Karan'' [''ENT''] [] [] True False]"
proof (intro allI conjI)
  fix pf
  have h: "\<not> truthy (sortBy \<lparr>searchTerm = js ''AN'', selectedConsultation = Some (js ''video''),
      selectedSpecialties = [js ''ENT''], sortBy = None\<rparr>)"
    by (simp add: truthy_def)
  show "subseq
     (filteredDoctors pf
       [doc ''Karan'' [''ENT''] [] [] True False, doc ''Bob'' [''ENT''] [] [] True True,
        doc ''Anita'' [''Dentist''] [] [] False True, doc ''Karan'' [''ENT''] [] [] True False]
       \<lparr>searchTerm = js ''AN'', selectedConsultation = Some (js ''video''),
        selectedSpecialties = [js ''ENT''], sortBy = None\<rparr>)
     [doc ''Karan'' [''ENT''] [] [] True False, doc ''Bob'' [''ENT''] [] [] True True,
      doc ''Anita'' [''Dentist''] [] [] False True, doc ''Karan'' [''ENT''] [] [] True False]"
    using h filteredDoctors_subset by blast
  show "filteredDoctors pf
     [doc ''Karan'' [''ENT''] [] [] True False, doc ''Bob'' [''ENT''] [] [] True True,
      doc ''Anita'' [''Dentist''] [] [] False True, doc ''Karan'' [''ENT''] [] [] True False]
     \<lparr>searchTerm = js ''AN'', selectedConsultation = Some (js ''video''),
      selectedSpecialties = [js ''ENT''], sortBy = None\<rparr>
   = [doc ''Karan'' [''ENT''] [] [] True False, doc ''Karan'' [''ENT''] [] [] True False]"
    by (simp add: filteredDoctors_def filter_stages_def sort_stage_def specialty_stage_def
          consultation_stage_def search_stage_def truthy_def toLowerCase_def latin1_def
          lower_unit_def is_upper_def Let_def doc_def js_def)
qed

section \<open>Sort keys\<close>

text \<open>
  Claim C10. A sort key that is non-empty and neither "fees" nor "experience" makes the
  comparator return 0 for every pair, so the sort stage returns its input unchanged and
  the derived list is the list the filter stages produce, in their order; whereas a
  consultation mode that is non-empty and neither "video" nor "clinic" removes every
  doctor.
\<close>

theorem sort_stage_unrecognised_key:
  assumes "k \<noteq> []" and "k \<noteq> js ''fees''" and "k \<noteq> js ''experience''"
    and "m \<noteq> []" and "m \<noteq> js ''video''" and "m \<noteq> js ''clinic''"
  shows "(\<forall>a b. sort_cmp pf k a b = Fin 0)
    \<and> sort_stage pf (Some k) xs = xs
    \<and> filteredDoctors pf raw (st\<lparr>sortBy := Some k\<rparr>) = filter_stages pf raw st
    \<and> consultation_stage (Some m) xs = []"
proof (intro conjI)
  show c: "\<forall>a b. sort_cmp pf k a b = Fin 0"
    using assms(1-3) by (simp add: sort_cmp_def)
  have "\<And>a b. \<not> positive (sort_cmp pf k a b)"
    by (simp add: c positive_def)
  then have s: "sort_stage pf (Some k) ys = ys" for ys
    using assms(1) by (simp add: sort_stage_def array_sort_never_positive)
  then show "sort_stage pf (Some k) xs = xs" .
  show "filteredDoctors pf raw (st\<lparr>sortBy := Some k\<rparr>) = filter_stages pf raw st"
    by (simp add: filteredDoctors_def filter_stages_def s)
  show "consultation_stage (Some m) xs = []"
    using assms(4-6) by (simp add: consultation_stage_def truthy_def)
qed

theorem sort_stage_unrecognised_key_witness:
  "\<forall>pf. sort_cmp pf (js ''rating'') (doc ''B'' [] (js ''500'') ''2 Years'' True True)
                            (doc ''A'' [] (js ''100'') ''9 Years'' True True) = Fin 0
   \<and> sort_stage pf (Some (js ''rating''))
        [doc ''B'' [] (js ''500'') ''2 Years'' True True,
         doc ''A'' [] (js ''100'') ''9 Years'' True True]
      = [doc ''B'' [] (js ''500'') ''2 Years'' True True,
         doc ''A'' [] (js ''100'') ''9 Years'' True True]
   \<and> consultation_stage (Some (js ''rating''))
        [doc ''B'' [] (js ''500'') ''2 Years'' True True,
         doc ''A'' [] (js ''100'') ''9 Years'' True True]
      = []"
proof
  fix pf
  have k: "js ''rating'' \<noteq> []" "js ''rating'' \<noteq> js ''fees''"
      "js ''rating'' \<noteq> js ''experience''"
      "js ''rating'' \<noteq> js ''video''" "js ''rating'' \<noteq> js ''clinic''"
    by (simp_all add: js_def)
  show "sort_cmp pf (js ''rating'') (doc ''B'' [] (js ''500'') ''2 Years'' True True)
                            (doc ''A'' [] (js ''100'') ''9 Years'' True True) = Fin 0
   \<and> sort_stage pf (Some (js ''rating''))
        [doc ''B'' [] (js ''500'') ''2 Years'' True True,
         doc ''A'' [] (js ''100'') ''9 Years'' True True]
      = [doc ''B'' [] (js ''500'') ''2 Years'' True True,
         doc ''A'' [] (js ''100'') ''9 Years'' True True]
   \<and> consultation_stage (Some (js ''rating''))
        [doc ''B'' [] (js ''500'') ''2 Years'' True True,
         doc ''A'' [] (js ''100'') ''9 Years'' True True]
      = []"
    using sort_stage_unrecognised_key [OF k(1) k(2) k(3) k(1) k(4) k(5)]
    by simp
qed

text \<open>
  Claim C4. With the sort key "experience" the sort stage reorders its input stably in
  descending order of the integer the experience string starts with, a string that does
  not start with a digit counting as zero; of "5 Years of experience" and
  "13 Years of experience" the 13-year entry comes first. The general part is for
  experience strings that start with at most 15 digits, whose integer is a double as it
  stands.
\<close>

theorem sort_by_experience:
  "(short_run s \<longrightarrow> parseExperience pf (Some s) = Fin (leading_integer s))
   \<and> ((\<forall>d \<in> set xs. short_run (experience d)) \<longrightarrow>
        sort_stage pf (Some (js ''experience'')) xs
          = sort_key (\<lambda>d. - leading_integer (experience d)) xs
        \<and> sorted_wrt (\<lambda>a b. leading_integer (experience a) \<ge> leading_integer (experience b))
            (sort_stage pf (Some (js ''experience'')) xs)
        \<and> mset (sort_stage pf (Some (js ''experience'')) xs) = mset xs
        \<and> filter (\<lambda>d. leading_integer (experience d) = v)
              (sort_stage pf (Some (js ''experience'')) xs)
            = filter (\<lambda>d. leading_integer (experience d) = v) xs)
   \<and> ((\<forall>d \<in> set raw. short_run (experience d)) \<longrightarrow>
        filteredDoctors pf raw (st\<lparr>sortBy := Some (js ''experience'')\<rparr>)
          = sort_key (\<lambda>d. - leading_integer (experience d)) (filter_stages pf raw st))
   \<and> sort_stage pf (Some (js ''experience''))
        [doc ''A'' [] [] ''5 Years of experience'' True True,
         doc ''B'' [] [] ''13 Years of experience'' True True]
      = [doc ''B'' [] [] ''13 Years of experience'' True True,
         doc ''A'' [] [] ''5 Years of experience'' True True]"
proof (intro conjI impI)
  let ?key = "\<lambda>d. - leading_integer (experience d)"
  show "sort_stage pf (Some (js ''experience''))
        [doc ''A'' [] [] ''5 Years of experience'' True True,
         doc ''B'' [] [] ''13 Years of experience'' True True]
      = [doc ''B'' [] [] ''13 Years of experience'' True True,
         doc ''A'' [] [] ''5 Years of experience'' True True]"
    by (simp add: sort_stage_def array_sort_def sort_cmp_def positive_def parseExperience_def
          to_number_def parseInt_def is_digit_def is_white_space_def digit_value_def
          doc_def js_def)
  {
    assume "short_run s"
    then show "parseExperience pf (Some s) = Fin (leading_integer s)"
      by (rule parseExperience_value)
  }
  {
    assume raw: "\<forall>d \<in> set raw. short_run (experience d)"
    obtain P where P: "filter_stages pf raw st = filter P raw"
      using filter_stages_filter by blast
    have "\<forall>d \<in> set (filter_stages pf raw st). short_run (experience d)"
      using raw by (simp add: P)
    then show "filteredDoctors pf raw (st\<lparr>sortBy := Some (js ''experience'')\<rparr>)
          = sort_key ?key (filter_stages pf raw st)"
      by (simp add: filteredDoctors_def filter_stages_def sort_stage_experience)
  }
  assume "\<forall>d \<in> set xs. short_run (experience d)"
  then show eq: "sort_stage pf (Some (js ''experience'')) xs = sort_key ?key xs"
    by (rule sort_stage_experience)
  have "sorted (map ?key (sort_key ?key xs))"
    by (rule sorted_sort_key)
  then show "sorted_wrt (\<lambda>a b. leading_integer (experience a) \<ge> leading_integer (experience b))
        (sort_stage pf (Some (js ''experience'')) xs)"
    by (simp add: eq sorted_map)
  show "mset (sort_stage pf (Some (js ''experience'')) xs) = mset xs"
    by (rule mset_sort_stage)
  have "filter (\<lambda>d. ?key d = - v) (sort_key ?key xs) = filter (\<lambda>d. ?key d = - v) xs"
    by (rule sort_key_stable)
  then show "filter (\<lambda>d. leading_integer (experience d) = v)
              (sort_stage pf (Some (js ''experience'')) xs)
            = filter (\<lambda>d. leading_integer (experience d) = v) xs"
    by (simp add: eq)
qed

theorem sort_by_experience_witness:
  "\<forall>pf. sort_stage pf (Some (js ''experience''))
        [doc ''A'' [] [] ''5 Years of experience'' True True,
         doc ''B'' [] [] ''13 Years of experience'' True True,
         doc ''C'' [] [] ''Fresher'' True True,
         doc ''D'' [] [] ''5 yrs'' True True]
      = [doc ''B'' [] [] ''13 Years of experience'' True True,
         doc ''A'' [] [] ''5 Years of experience'' True True,
         doc ''D'' [] [] ''5 yrs'' True True,
         doc ''C'' [] [] ''Fresher'' True True]"
proof
  fix pf
  let ?xs = "[doc ''A'' [] [] ''5 Years of experience'' True True,
         doc ''B'' [] [] ''13 Years of experience'' True True,
         doc ''C'' [] [] ''Fresher'' True True,
         doc ''D'' [] [] ''5 yrs'' True True]"
  have h: "\<forall>d \<in> set ?xs. short_run (experience d)"
    by (simp add: short_run_def is_digit_def doc_def js_def)
  have "sort_stage pf (Some (js ''experience'')) ?xs
        = sort_key (\<lambda>d. - leading_integer (experience d)) ?xs"
    using h sort_by_experience [of _ pf ?xs] by blast
  then show "sort_stage pf (Some (js ''experience'')) ?xs
      = [doc ''B'' [] [] ''13 Years of experience'' True True,
         doc ''A'' [] [] ''5 Years of experience'' True True,
         doc ''D'' [] [] ''5 yrs'' True True,
         doc ''C'' [] [] ''Fresher'' True True]"
    by (simp add: leading_integer_def is_digit_def digit_value_def doc_def js_def)
qed

section \<open>Sorting by fee\<close>

lemma insert_sorted_fees:
  assumes "short_run (strip_fee (fees x))" and "\<forall>y \<in> set ys. short_run (strip_fee (fees y))"
  shows "insert_sorted (sort_cmp pf (js ''fees'')) x ys
         = insort_key (\<lambda>d. leading_integer (strip_fee (fees d))) x ys"
  using assms(2)
proof (induction ys)
  case Nil
  then show ?case by simp
next
  case (Cons y ys)
  then have y: "short_run (strip_fee (fees y))" by simp
  have "sort_cmp pf (js ''fees'') x y
        = num_sub pf (Fin (leading_integer (strip_fee (fees x))))
                     (Fin (leading_integer (strip_fee (fees y))))"
    using assms(1) y by (simp add: sort_cmp_def parseFee_value)
  also have "\<dots> = Fin (leading_integer (strip_fee (fees x)) - leading_integer (strip_fee (fees y)))"
    using assms(1) y by (intro num_sub_short leading_integer_bound)
  finally have "positive (sort_cmp pf (js ''fees'') x y)
        = (\<not> leading_integer (strip_fee (fees x)) \<le> leading_integer (strip_fee (fees y)))"
    by (auto simp: positive_def)
  with Cons show ?case by simp
qed

text \<open>
  What the code does with fees whose stripped string starts with at most 15 digits: a
  stable sort, ascending in the integer before the first decimal point.
\<close>

lemma sort_stage_fees:
  assumes "\<forall>d \<in> set xs. short_run (strip_fee (fees d))"
  shows "sort_stage pf (Some (js ''fees'')) xs
         = sort_key (\<lambda>d. leading_integer (strip_fee (fees d))) xs"
proof -
  let ?key = "\<lambda>d. leading_integer (strip_fee (fees d))"
  have "array_sort (sort_cmp pf (js ''fees'')) xs = sort_key ?key xs"
    using assms
  proof (induction xs)
    case Nil
    then show ?case by (simp add: array_sort_def)
  next
    case (Cons x xs)
    have ih: "array_sort (sort_cmp pf (js ''fees'')) xs = sort_key ?key xs"
      using Cons by simp
    have "\<forall>y \<in> set (sort_key ?key xs). short_run (strip_fee (fees y))"
      using Cons.prems by simp
    then have "insert_sorted (sort_cmp pf (js ''fees'')) x (sort_key ?key xs)
          = insort_key ?key x (sort_key ?key xs)"
      using Cons.prems by (intro insert_sorted_fees) simp_all
    then show ?case
      using ih by (simp add: array_sort_def sort_key_def)
  qed
  then show ?thesis
    by (simp add: sort_stage_def key_names)
qed

lemma sort_stage_fees_example:
  "sort_stage pf (Some (js ''fees''))
        [doc ''A'' [] (0x20B9 # js '' 500'') [] True True,
         doc ''B'' [] (0x20B9 # js '' 100'') [] True True,
         doc ''C'' [] (js ''abc'') [] True True]
      = [doc ''C'' [] (js ''abc'') [] True True,
         doc ''B'' [] (0x20B9 # js '' 100'') [] True True,
         doc ''A'' [] (0x20B9 # js '' 500'') [] True True]"
  by (simp add: sort_stage_def array_sort_def sort_cmp_def positive_def parseFee_def or_zero_def
        to_number_def parseInt_def strip_fee_def is_digit_def is_white_space_def digit_value_def
        doc_def js_def)

text \<open>
  Claim C3. With the sort key "fees" the list is to come out in ascending order of the
  numeric value of the fee string once all characters other than digits and decimal
  points are stripped, as the comment \<open>// Ascending\<close> on the comparator and the label
  "Fees (Ascending)" say. The code falls short of it for fees that differ only behind the
  decimal point: \<open>parseInt\<close> stops at the point, so "99.90" and "99.10" (written with
  the rupee sign) both count as 99 and keep their order, with the larger fee first.
\<close>

theorem fees_fraction_ignored:
  "sort_stage pf (Some (js ''fees''))
      [doc ''A'' [] (0x20B9 # js '' 99.90'') [] True True,
       doc ''B'' [] (0x20B9 # js '' 99.10'') [] True True]
    = [doc ''A'' [] (0x20B9 # js '' 99.90'') [] True True,
       doc ''B'' [] (0x20B9 # js '' 99.10'') [] True True]
   \<and> parseFee pf (Some (0x20B9 # js '' 99.90'')) = Fin 99
   \<and> parseFee pf (Some (0x20B9 # js '' 99.10'')) = Fin 99
   \<and> fee_number (0x20B9 # js '' 99.90'') = 999 / 10
   \<and> fee_number (0x20B9 # js '' 99.10'') = 991 / 10
   \<and> \<not> sorted (map (\<lambda>d. fee_number (fees d))
         (sort_stage pf (Some (js ''fees''))
            [doc ''A'' [] (0x20B9 # js '' 99.90'') [] True True,
             doc ''B'' [] (0x20B9 # js '' 99.10'') [] True True]))"
proof (intro conjI)
  show a: "fee_number (0x20B9 # js '' 99.90'') = 999 / 10"
    by (simp add: fee_number_def decimal_numeral_def strip_fee_def is_digit_def digit_value_def js_def)
  show b: "fee_number (0x20B9 # js '' 99.10'') = 991 / 10"
    by (simp add: fee_number_def decimal_numeral_def strip_fee_def is_digit_def digit_value_def js_def)
  show "parseFee pf (Some (0x20B9 # js '' 99.90'')) = Fin 99"
    by (simp add: parseFee_def or_zero_def parseInt_def strip_fee_def is_digit_def
          is_white_space_def digit_value_def js_def)
  show "parseFee pf (Some (0x20B9 # js '' 99.10'')) = Fin 99"
    by (simp add: parseFee_def or_zero_def parseInt_def strip_fee_def is_digit_def
          is_white_space_def digit_value_def js_def)
  show s: "sort_stage pf (Some (js ''fees''))
          [doc ''A'' [] (0x20B9 # js '' 99.90'') [] True True,
           doc ''B'' [] (0x20B9 # js '' 99.10'') [] True True]
        = [doc ''A'' [] (0x20B9 # js '' 99.90'') [] True True,
           doc ''B'' [] (0x20B9 # js '' 99.10'') [] True True]"
    by (simp add: sort_stage_def array_sort_def sort_cmp_def positive_def parseFee_def or_zero_def
        to_number_def parseInt_def strip_fee_def is_digit_def is_white_space_def digit_value_def
        doc_def js_def)
  have f: "fees (doc ''A'' [] (0x20B9 # js '' 99.90'') [] True True) = 0x20B9 # js '' 99.90''"
          "fees (doc ''B'' [] (0x20B9 # js '' 99.10'') [] True True) = 0x20B9 # js '' 99.10''"
    by (simp_all add: doc_def)
  have m: "map (\<lambda>d. fee_number (fees d))
       (sort_stage pf (Some (js ''fees''))
          [doc ''A'' [] (0x20B9 # js '' 99.90'') [] True True,
           doc ''B'' [] (0x20B9 # js '' 99.10'') [] True True])
        = [999 / 10, 991 / 10]"
    unfolding s by (simp only: list.map f a b)
  have n: "\<not> ((999::rat) / 10 \<le> 991 / 10)"
    by simp
  show "\<not> sorted (map (\<lambda>d. fee_number (fees d))
         (sort_stage pf (Some (js ''fees''))
            [doc ''A'' [] (0x20B9 # js '' 99.90'') [] True True,
             doc ''B'' [] (0x20B9 # js '' 99.10'') [] True True]))"
    unfolding m sorted2 using n by blast
qed

section \<open>The query string\<close>



















section \<open>The initial fetch\<close>

lemma fetchData_array:
  "ok r \<Longrightarrow> json_result r = Resolved (JArray xs) \<Longrightarrow>
   fetchData (Resolved r) st = st\<lparr>allDoctors := JArray xs, isLoading := False, error := None\<rparr>"
  by (simp add: fetchData_def)

lemma fetchData_truthy:
  "ok r \<Longrightarrow> json_result r = Resolved data \<Longrightarrow> json_truthy data \<Longrightarrow>
   fetchData (Resolved r) st = st\<lparr>allDoctors := data, isLoading := False, error := None\<rparr>"
  by (simp add: fetchData_def)

lemma fetchData_falsy:
  "ok r \<Longrightarrow> json_result r = Resolved data \<Longrightarrow> \<not> json_truthy data \<Longrightarrow>
   fetchData (Resolved r) st = st\<lparr>allDoctors := JArray [], isLoading := False, error := None\<rparr>"
  by (simp add: fetchData_def)

lemma fetchData_failed:
  "failed outcome \<Longrightarrow>
   (\<exists>msg. error (fetchData outcome st) = Some (js ''Failed to load doctor data. '' @ msg))
   \<and> allDoctors (fetchData outcome st) = allDoctors st
   \<and> \<not> isLoading (fetchData outcome st)"
  by (cases outcome)
     (auto simp: failed_def fetchData_def catch_block_def Let_def split: settled.splits)

lemma fetchData_500:
  "fetchData (Resolved \<lparr>ok = False, status = 500, json_result = Rejected NotAnError\<rparr>) initial_state
   = \<lparr>allDoctors = JArray [], isLoading = False,
      error = Some (js ''Failed to load doctor data. HTTP error! status: 500'')\<rparr>"
  by (simp add: fetchData_def catch_block_def initial_state_def decimal.simps js_def)

text \<open>
  Claim C1. A successful fetch stores the parsed body, and an empty array when the body is
  not an array; a failed fetch stores a message and leaves the collection empty. The code
  replaces only a falsy body (null, false, 0, the empty string) by the empty array: for the
  body \<open>{}\<close> with status 200 the object itself becomes the doctor collection.
\<close>

theorem fetchData_keeps_object_body:
  "fetchData (Resolved \<lparr>ok = True, status = 200, json_result = Resolved (JObject [])\<rparr>) initial_state
   = \<lparr>allDoctors = JObject [], isLoading = False, error = None\<rparr>
   \<and> \<not> is_array (JObject [])"
  by (simp add: fetchData_def initial_state_def)

end
